theory Spec2Isabelle
  imports Main
begin

unbundle bit_operations_syntax

section \<open>Snowflake identifiers: the embedding of snowflake.py\<close>

text \<open>
  Python integers are unbounded, so every integer of the source is an \<open>int\<close>.
  On \<open>int\<close>, \<open>push_bit n k\<close> is Python's \<open>k << n\<close>, \<open>drop_bit n k\<close> is
  \<open>k >> n\<close> (both round towards minus infinity), and \<open>AND\<close>, \<open>OR\<close> act on the
  infinite two's complement representation, as Python's \<open>&\<close> and \<open>|\<close> do.
\<close>

subsection \<open>Constants (lines 10 to 13)\<close>

text \<open>
  The source writes \<open>MAX_TS\<close> as a binary literal of forty-one ones, that is
  \<open>2199023255551\<close>.
\<close>

definition MAX_TS :: int where
  "MAX_TS = 2199023255551"

definition MAX_DATACENTER :: int where
  "MAX_DATACENTER = 31"

definition MAX_INSTANCE :: int where
  "MAX_INSTANCE = 31"

definition MAX_SEQ :: int where
  "MAX_SEQ = 4095"

subsection \<open>Errors\<close>

text \<open>
  Both classes raise \<open>ValueError\<close> with a message that names the offending field;
  the tag keeps which check fired. \<open>OverflowError\<close> is raised by the generator only.
\<close>

datatype field = Epoch | Timestamp | Datacenter | Instance | Seq

datatype error = ValueError field | OverflowError

subsection \<open>The frozen dataclass Snowflake (lines 16 to 70)\<close>

text \<open>
  The field \<open>instance\<close> of the source is \<open>instance_id\<close> here, and the property
  \<open>value\<close> is \<open>value_sf\<close>: both names are reserved words of Isabelle.
\<close>

record Snowflake =
  timestamp :: int
  datacenter :: int
  instance_id :: int
  epoch :: int
  seq :: int

text \<open>\<open>__post_init__\<close>: the checks in the order of the source; the first that fails raises.\<close>

definition post_init :: "Snowflake \<Rightarrow> error + Snowflake" where
  "post_init self =
     (if epoch self < 0 then Inl (ValueError Epoch)
      else if \<not> (0 \<le> timestamp self \<and> timestamp self \<le> MAX_TS) then Inl (ValueError Timestamp)
      else if \<not> (0 \<le> datacenter self \<and> datacenter self \<le> MAX_DATACENTER)
        then Inl (ValueError Datacenter)
      else if \<not> (0 \<le> instance_id self \<and> instance_id self \<le> MAX_INSTANCE)
        then Inl (ValueError Instance)
      else if \<not> (0 \<le> seq self \<and> seq self \<le> MAX_SEQ) then Inl (ValueError Seq)
      else Inr self)"

text \<open>
  The generated constructor \<open>Snowflake(timestamp, datacenter, instance, epoch, seq)\<close>:
  it stores the five fields and runs \<open>__post_init__\<close>.
\<close>

definition Snowflake_new :: "int \<Rightarrow> int \<Rightarrow> int \<Rightarrow> int \<Rightarrow> int \<Rightarrow> error + Snowflake" where
  "Snowflake_new ts dc inst ep sq =
     post_init \<lparr>timestamp = ts, datacenter = dc, instance_id = inst, epoch = ep, seq = sq\<rparr>"

definition parse :: "int \<Rightarrow> int \<Rightarrow> error + Snowflake" where
  "parse snowflake ep =
     Snowflake_new
       (drop_bit 22 snowflake)
       (drop_bit 17 snowflake AND MAX_DATACENTER)
       (drop_bit 12 snowflake AND MAX_INSTANCE)
       ep
       (snowflake AND MAX_SEQ)"

definition value_sf :: "Snowflake \<Rightarrow> int" where
  "value_sf self =
     push_bit 22 (timestamp self) OR push_bit 17 (datacenter self)
       OR push_bit 12 (instance_id self) OR seq self"

definition milliseconds :: "Snowflake \<Rightarrow> int" where
  "milliseconds self = timestamp self + epoch self"

subsection \<open>The class SnowflakeGenerator (lines 73 to 116)\<close>

text \<open>
  The attributes \<open>_epoch\<close>, \<open>_ts\<close>, \<open>_inf\<close> and \<open>_seq\<close> of the source. The clock
  reading \<open>int(time() * 1000)\<close> is the argument \<open>now\<close> of the constructor and of
  \<open>gen_next\<close>: the milliseconds since the Unix epoch at the moment of the call.
\<close>

record SnowflakeGenerator =
  gen_epoch :: int
  gen_ts :: int
  gen_inf :: int
  gen_seq :: int

text \<open>
  \<open>__init__\<close>. The optional \<open>timestamp\<close> is an \<open>int option\<close>; the source's
  \<open>timestamp or current\<close> takes \<open>current\<close> when the argument is \<open>None\<close> and also
  when it is \<open>0\<close>, since \<open>0\<close> is falsy.
\<close>

definition SnowflakeGenerator_init ::
  "int \<Rightarrow> int \<Rightarrow> int \<Rightarrow> int \<Rightarrow> int \<Rightarrow> int option \<Rightarrow> error + SnowflakeGenerator" where
  "SnowflakeGenerator_init now dc inst sq ep ts_arg =
     (let current = now in
      if current - ep \<ge> MAX_TS then Inl OverflowError
      else
        let ts = (case ts_arg of None \<Rightarrow> current | Some t \<Rightarrow> if t = 0 then current else t) in
        if ts < 0 \<or> ts > current then Inl (ValueError Timestamp)
        else if ep < 0 \<or> ep > current then Inl (ValueError Epoch)
        else if dc < 0 \<or> dc > MAX_DATACENTER then Inl (ValueError Datacenter)
        else if inst < 0 \<or> inst > MAX_INSTANCE then Inl (ValueError Instance)
        else if sq < 0 \<or> sq > MAX_SEQ then Inl (ValueError Seq)
        else Inr \<lparr>gen_epoch = ep, gen_ts = ts - ep,
                  gen_inf = push_bit 17 dc OR push_bit 12 inst, gen_seq = sq\<rparr>)"

definition from_snowflake :: "int \<Rightarrow> Snowflake \<Rightarrow> error + SnowflakeGenerator" where
  "from_snowflake now sf =
     SnowflakeGenerator_init now (datacenter sf) (instance_id sf) (seq sf) (epoch sf)
       (Some (timestamp sf))"

text \<open>
  Lines 114 to 116, shared by the two branches of \<open>__next__\<close> that mint an identifier:
  store the millisecond, pack the three parts.
\<close>

definition mint :: "int \<Rightarrow> SnowflakeGenerator \<Rightarrow> (error + int option) \<times> SnowflakeGenerator" where
  "mint current g =
     (let g' = g\<lparr>gen_ts := current\<rparr>
      in (Inr (Some (push_bit 22 (gen_ts g') OR gen_inf g' OR gen_seq g')), g'))"

text \<open>
  \<open>__next__\<close>. The result pairs what the call gives back with the generator after the
  call: \<open>Inl\<close> an exception, \<open>Inr None\<close> the value \<open>None\<close>, \<open>Inr (Some v)\<close> an
  identifier. The object outlives an exception, so the state is returned in that case too.
\<close>

definition gen_next :: "int \<Rightarrow> SnowflakeGenerator \<Rightarrow> (error + int option) \<times> SnowflakeGenerator" where
  "gen_next now g =
     (let current = now - gen_epoch g in
      if current \<ge> MAX_TS then (Inl OverflowError, g)
      else if gen_ts g = current then
        (if gen_seq g = MAX_SEQ then (Inr None, g)
         else mint current (g\<lparr>gen_seq := gen_seq g + 1\<rparr>))
      else if gen_ts g > current then (Inr None, g)
      else mint current (g\<lparr>gen_seq := 0\<rparr>))"

text \<open>
  A caller that calls \<open>__next__\<close> once per clock reading of a list, keeping every
  result and going on after an exception.
\<close>

fun run :: "int list \<Rightarrow> SnowflakeGenerator \<Rightarrow> (error + int option) list \<times> SnowflakeGenerator" where
  "run [] g = ([], g)"
| "run (now # clock) g =
     (case gen_next now g of (r, g') \<Rightarrow>
        (case run clock g' of (rs, g'') \<Rightarrow> (r # rs, g'')))"

text \<open>
  What holds of every generator the constructor returns and of every state \<open>__next__\<close>
  leaves behind: the sequence is in range, the last millisecond is below \<open>MAX_TS\<close>, and
  the instance part occupies bits 12 to 21 only.
\<close>

definition gen_inv :: "SnowflakeGenerator \<Rightarrow> bool" where
  "gen_inv g \<longleftrightarrow>
     0 \<le> gen_seq g \<and> gen_seq g \<le> MAX_SEQ \<and> gen_ts g < MAX_TS \<and>
     take_bit 12 (gen_inf g) = 0 \<and> drop_bit 22 (gen_inf g) = 0"

text \<open>The bounds of the five fields, as \<open>__post_init__\<close> checks them.\<close>

definition in_bounds :: "Snowflake \<Rightarrow> bool" where
  "in_bounds self \<longleftrightarrow>
     0 \<le> epoch self \<and>
     0 \<le> timestamp self \<and> timestamp self \<le> MAX_TS \<and>
     0 \<le> datacenter self \<and> datacenter self \<le> MAX_DATACENTER \<and>
     0 \<le> instance_id self \<and> instance_id self \<le> MAX_INSTANCE \<and>
     0 \<le> seq self \<and> seq self \<le> MAX_SEQ"

section \<open>Basic facts\<close>

lemma MAX_TS_eq: "MAX_TS = 2 ^ 41 - 1"
  by (simp add: MAX_TS_def)

subsection \<open>Masks and shifts\<close>

lemma fits5: "0 \<le> k \<Longrightarrow> k \<le> 31 \<Longrightarrow> take_bit 5 k = k" for k :: int
  by (simp add: take_bit_int_eq_self)

lemma fits12: "0 \<le> k \<Longrightarrow> k \<le> 4095 \<Longrightarrow> take_bit 12 k = k" for k :: int
  by (simp add: take_bit_int_eq_self)

lemma and31: "k AND 31 = take_bit 5 k" for k :: int
proof -
  have "(31::int) = mask 5"
    by (simp add: mask_eq_exp_minus_1)
  then show ?thesis
    by (simp add: take_bit_eq_mask)
qed

lemma and4095: "k AND 4095 = take_bit 12 k" for k :: int
proof -
  have "(4095::int) = mask 12"
    by (simp add: mask_eq_exp_minus_1)
  then show ?thesis
    by (simp add: take_bit_eq_mask)
qed

lemma take5_range: "0 \<le> take_bit 5 k \<and> take_bit 5 k \<le> 31" for k :: int
  using take_bit_int_less_exp [of 5 k] by simp

lemma take12_range: "0 \<le> take_bit 12 k \<and> take_bit 12 k \<le> 4095" for k :: int
  using take_bit_int_less_exp [of 12 k] by simp

text \<open>Unpacking a packed integer whose three low parts fit their widths.\<close>

lemma unpack_ts:
  "drop_bit 22 (push_bit 22 ts OR push_bit 17 (take_bit 5 dc)
     OR push_bit 12 (take_bit 5 inst) OR take_bit 12 sq) = ts" for ts :: int
  by (rule bit_eqI) (auto simp: bit_simps)

lemma unpack_dc:
  "take_bit 5 (drop_bit 17 (push_bit 22 ts OR push_bit 17 (take_bit 5 dc)
     OR push_bit 12 (take_bit 5 inst) OR take_bit 12 sq)) = take_bit 5 dc" for ts :: int
  by (rule bit_eqI) (auto simp: bit_simps)

lemma unpack_inst:
  "take_bit 5 (drop_bit 12 (push_bit 22 ts OR push_bit 17 (take_bit 5 dc)
     OR push_bit 12 (take_bit 5 inst) OR take_bit 12 sq)) = take_bit 5 inst" for ts :: int
  by (rule bit_eqI) (auto simp: bit_simps)

lemma unpack_seq:
  "take_bit 12 (push_bit 22 ts OR push_bit 17 (take_bit 5 dc)
     OR push_bit 12 (take_bit 5 inst) OR take_bit 12 sq) = take_bit 12 sq" for ts :: int
  by (rule bit_eqI) (auto simp: bit_simps)

text \<open>Packing the four parts cut out of any integer gives the integer back.\<close>

lemma repack:
  "push_bit 22 (drop_bit 22 x) OR push_bit 17 (take_bit 5 (drop_bit 17 x))
     OR push_bit 12 (take_bit 5 (drop_bit 12 x)) OR take_bit 12 x = x" for x :: int
proof (rule bit_eqI)
  fix n :: nat
  consider "n < 12" | "12 \<le> n" "n < 17" | "17 \<le> n" "n < 22" | "22 \<le> n"
    by linarith
  then show "bit (push_bit 22 (drop_bit 22 x) OR push_bit 17 (take_bit 5 (drop_bit 17 x))
     OR push_bit 12 (take_bit 5 (drop_bit 12 x)) OR take_bit 12 x) n = bit x n"
    by cases (auto simp: bit_simps)
qed

text \<open>The unmasked timestamp \<open>x >> 22\<close> passes its check exactly for \<open>x\<close> of 63 bits.\<close>

lemma drop22_range:
  "(0 \<le> drop_bit 22 x \<and> drop_bit 22 x \<le> MAX_TS) \<longleftrightarrow> (0 \<le> x \<and> x < 2 ^ 63)" for x :: int
proof -
  have a: "x = 4194304 * (x div 4194304) + x mod 4194304"
    by simp
  have b: "0 \<le> x mod 4194304" and c: "x mod 4194304 < 4194304"
    by simp_all
  have "(0 \<le> x div 4194304 \<and> x div 4194304 \<le> 2199023255551)
      \<longleftrightarrow> (0 \<le> x \<and> x < 9223372036854775808)"
    using a b c by linarith
  then show ?thesis
    by (simp add: drop_bit_eq_div MAX_TS_def)
qed

subsection \<open>Validation and decoding\<close>

lemma post_init_ok:
  "in_bounds self \<Longrightarrow> post_init self = Inr self"
  by (simp add: in_bounds_def post_init_def)

lemma post_init_Inr: "post_init self = Inr s \<longleftrightarrow> s = self \<and> in_bounds self"
  by (auto simp: in_bounds_def post_init_def split: if_splits)

lemma post_init_Inl: "(\<exists>e. post_init self = Inl e) \<longleftrightarrow> \<not> in_bounds self"
  by (auto simp: in_bounds_def post_init_def split: if_splits)

lemma post_init_error: "post_init self = Inl e \<Longrightarrow> \<exists>f. e = ValueError f"
  by (auto simp: post_init_def split: if_splits)

lemma parse_unfold:
  "parse x e = post_init \<lparr>timestamp = drop_bit 22 x, datacenter = take_bit 5 (drop_bit 17 x),
     instance_id = take_bit 5 (drop_bit 12 x), epoch = e, seq = take_bit 12 x\<rparr>"
  by (simp add: parse_def Snowflake_new_def MAX_DATACENTER_def MAX_INSTANCE_def MAX_SEQ_def
      and31 and4095)

lemma parse_result:
  "parse x e =
     (if e < 0 then Inl (ValueError Epoch)
      else if \<not> (0 \<le> x \<and> x < 2 ^ 63) then Inl (ValueError Timestamp)
      else Inr \<lparr>timestamp = drop_bit 22 x, datacenter = take_bit 5 (drop_bit 17 x),
        instance_id = take_bit 5 (drop_bit 12 x), epoch = e, seq = take_bit 12 x\<rparr>)"
  using drop22_range [of x] take5_range [of "drop_bit 17 x"] take5_range [of "drop_bit 12 x"]
    take12_range [of x]
  by (simp add: parse_unfold post_init_def MAX_DATACENTER_def MAX_INSTANCE_def MAX_SEQ_def)

lemma value_parse: "parse x e = Inr i \<Longrightarrow> value_sf i = x"
  using repack [of x] by (auto simp: parse_result value_sf_def split: if_splits)

lemma parse_value:
  assumes "in_bounds i"
  shows "parse (value_sf i) (epoch i) = Inr i"
proof -
  from assms have dc: "take_bit 5 (datacenter i) = datacenter i"
    and inst: "take_bit 5 (instance_id i) = instance_id i"
    and sq: "take_bit 12 (seq i) = seq i"
    by (simp_all add: in_bounds_def MAX_DATACENTER_def MAX_INSTANCE_def MAX_SEQ_def fits5 fits12)
  define v where "v = value_sf i"
  have v: "v = push_bit 22 (timestamp i) OR push_bit 17 (take_bit 5 (datacenter i))
     OR push_bit 12 (take_bit 5 (instance_id i)) OR take_bit 12 (seq i)"
    by (simp add: v_def value_sf_def dc inst sq)
  have "drop_bit 22 v = timestamp i"
    unfolding v by (rule unpack_ts)
  moreover have "take_bit 5 (drop_bit 17 v) = datacenter i"
    unfolding v using unpack_dc [of "timestamp i" "datacenter i" "instance_id i" "seq i"] dc
    by simp
  moreover have "take_bit 5 (drop_bit 12 v) = instance_id i"
    unfolding v using unpack_inst [of "timestamp i" "datacenter i" "instance_id i" "seq i"] inst
    by simp
  moreover have "take_bit 12 v = seq i"
    unfolding v using unpack_seq [of "timestamp i" "datacenter i" "instance_id i" "seq i"] sq
    by simp
  ultimately have "parse v (epoch i) = post_init \<lparr>timestamp = timestamp i,
      datacenter = datacenter i, instance_id = instance_id i, epoch = epoch i, seq = seq i\<rparr>"
    by (simp only: parse_unfold)
  also have "\<lparr>timestamp = timestamp i, datacenter = datacenter i,
      instance_id = instance_id i, epoch = epoch i, seq = seq i\<rparr> = i"
    by (cases i) simp
  finally have "parse v (epoch i) = post_init i" .
  with assms show ?thesis
    by (simp add: v_def post_init_ok)
qed

section \<open>The identifier: encoding, decoding, bounds\<close>

text \<open>
  Claim C1, as the code has it. An identifier whose five fields are within the bounds
  of \<open>__post_init__\<close> is accepted by it, and decoding its encoding under its own
  epoch gives back the same five fields. For every integer \<open>x\<close> of at most 63 bits
  (\<open>0 \<le> x < 2 ^ 63\<close>) and every epoch \<open>e \<ge> 0\<close>, decoding succeeds and encoding
  the result gives \<open>x\<close> back; more generally, whenever decoding \<open>x\<close> succeeds, encoding
  the result gives \<open>x\<close>.
\<close>

theorem roundtrip:
  "(in_bounds i \<longrightarrow> post_init i = Inr i \<and> parse (value_sf i) (epoch i) = Inr i) \<and>
   (0 \<le> x \<and> x < 2 ^ 63 \<and> 0 \<le> e \<longrightarrow> (\<exists>j. parse x e = Inr j \<and> value_sf j = x)) \<and>
   (parse x e = Inr j \<longrightarrow> value_sf j = x)"
proof (intro conjI impI)
  assume "in_bounds i"
  then show "post_init i = Inr i" and "parse (value_sf i) (epoch i) = Inr i"
    by (rule post_init_ok, rule parse_value)
next
  assume a: "0 \<le> x \<and> x < 2 ^ 63 \<and> 0 \<le> e"
  then obtain j where j: "parse x e = Inr j"
    by (simp add: parse_result)
  then have "value_sf j = x"
    by (rule value_parse)
  with j show "\<exists>j. parse x e = Inr j \<and> value_sf j = x"
    by blast
next
  assume "parse x e = Inr j"
  then show "value_sf j = x"
    by (rule value_parse)
qed

text \<open>
  The theorem at the example of the specification: timestamp 123456789, datacenter 1,
  instance 2, sequence 3.
\<close>

theorem roundtrip_witness:
  "in_bounds \<lparr>timestamp = 123456789, datacenter = 1, instance_id = 2, epoch = 0, seq = 3\<rparr> \<and>
   value_sf \<lparr>timestamp = 123456789, datacenter = 1, instance_id = 2, epoch = 0, seq = 3\<rparr>
     = 517815304069123 \<and>
   parse 517815304069123 0
     = Inr \<lparr>timestamp = 123456789, datacenter = 1, instance_id = 2, epoch = 0, seq = 3\<rparr> \<and>
   (0::int) \<le> 517815304069123 \<and> (517815304069123::int) < 2 ^ 63"
proof -
  let ?i = "\<lparr>timestamp = 123456789, datacenter = 1, instance_id = 2, epoch = 0, seq = 3\<rparr>"
  have b: "in_bounds ?i"
    by (simp add: in_bounds_def MAX_TS_def MAX_DATACENTER_def MAX_INSTANCE_def MAX_SEQ_def)
  have v: "value_sf ?i = 517815304069123"
    by (simp add: value_sf_def)
  from roundtrip [of ?i 517815304069123 0 ?i] b v show ?thesis
    by simp
qed

text \<open>
  The second half of C1 as stated ranges over every 64-bit unsigned integer. At
  \<open>x = 2 ^ 63\<close> and epoch 0 there is no decoded identifier to encode: \<open>parse\<close>
  raises, since the timestamp \<open>x >> 22 = 2 ^ 41\<close> exceeds \<open>MAX_TS\<close>.
\<close>

theorem roundtrip_counterexample:
  "(0::int) \<le> 9223372036854775808 \<and> (9223372036854775808::int) < 2 ^ 64 \<and>
   parse 9223372036854775808 0 = Inl (ValueError Timestamp)"
  by (simp add: parse_result)

text \<open>
  Claim C2, as the code has it. Decoding checks the epoch first and then the timestamp
  \<open>raw >> 22\<close>, which is shifted but not masked: decoding fails with \<open>ValueError\<close>
  when the epoch is negative, fails with \<open>ValueError\<close> when \<open>raw\<close> is negative or
  \<open>raw \<ge> 2 ^ 63\<close>, and succeeds in every other case, the three masked fields being
  within their ranges by construction.
\<close>

theorem parse_succeeds_iff:
  "parse raw e =
     (if e < 0 then Inl (ValueError Epoch)
      else if \<not> (0 \<le> raw \<and> raw < 2 ^ 63) then Inl (ValueError Timestamp)
      else Inr \<lparr>timestamp = drop_bit 22 raw, datacenter = drop_bit 17 raw AND 31,
        instance_id = drop_bit 12 raw AND 31, epoch = e, seq = raw AND 4095\<rparr>)"
  by (simp add: parse_result and31 and4095)

text \<open>
  The largest integer that decodes, \<open>2 ^ 63 - 1\<close>: every field is at its maximum.
\<close>

theorem parse_succeeds_iff_witness:
  "parse 9223372036854775807 0 =
     Inr \<lparr>timestamp = 2199023255551, datacenter = 31, instance_id = 31, epoch = 0, seq = 4095\<rparr>"
  using parse_succeeds_iff [of 9223372036854775807 0]
  by (simp add: drop_bit_eq_div and31 and4095 take_bit_eq_mod)

text \<open>
  C2 as stated fails at the largest 64-bit unsigned integer, \<open>2 ^ 64 - 1\<close>, with
  epoch 0: decoding raises on the timestamp check.
\<close>

theorem parse_fails_counterexample:
  "(0::int) \<le> 18446744073709551615 \<and> (18446744073709551615::int) < 2 ^ 64 \<and> (0::int) \<le> 0 \<and>
   parse 18446744073709551615 0 = Inl (ValueError Timestamp)"
  by (simp add: parse_result)

text \<open>
  Claim C3, as the code has it. The timestamp field is 41 bits wide: \<open>MAX_TS\<close> is
  \<open>2 ^ 41 - 1 = 2199023255551\<close>. Constructing an identifier with a timestamp in
  \<open>0..2199023255551\<close> never fails on the timestamp check, construction with the
  timestamp \<open>2199023255551\<close> and zeros elsewhere succeeds, and the next timestamp,
  \<open>2199023255552\<close>, fails on the timestamp check whenever the epoch passes its own.
\<close>

theorem max_timestamp:
  "MAX_TS = 2 ^ 41 - 1 \<and> MAX_TS = 2199023255551 \<and>
   (0 \<le> ts \<and> ts \<le> 2199023255551 \<longrightarrow>
      Snowflake_new ts dc inst ep sq \<noteq> Inl (ValueError Timestamp)) \<and>
   Snowflake_new 2199023255551 0 0 0 0 =
      Inr \<lparr>timestamp = 2199023255551, datacenter = 0, instance_id = 0, epoch = 0, seq = 0\<rparr> \<and>
   (0 \<le> ep \<longrightarrow> Snowflake_new (2199023255551 + 1) dc inst ep sq = Inl (ValueError Timestamp))"
  by (simp add: MAX_TS_def Snowflake_new_def post_init_def MAX_DATACENTER_def MAX_INSTANCE_def
      MAX_SEQ_def)

theorem max_timestamp_witness:
  "(0::int) \<le> 5 \<and> (5::int) \<le> 2199023255551 \<and>
   Snowflake_new 5 0 0 0 0 \<noteq> Inl (ValueError Timestamp) \<and>
   Snowflake_new 2199023255552 0 0 0 0 = Inl (ValueError Timestamp)"
  using max_timestamp [of 5 0 0 0 0] by simp

text \<open>
  C3 as stated names \<open>8796093022207 = 2 ^ 43 - 1\<close> as the maximum. It is not the
  value of \<open>MAX_TS\<close>, and construction with that timestamp fails on the timestamp
  check.
\<close>

theorem max_timestamp_counterexample:
  "(0::int) \<le> 8796093022207 \<and> (8796093022207::int) = 2 ^ 43 - 1 \<and>
   MAX_TS \<noteq> 8796093022207 \<and>
   Snowflake_new 8796093022207 0 0 0 0 = Inl (ValueError Timestamp)"
  by (simp add: MAX_TS_def Snowflake_new_def post_init_def)

text \<open>
  Claim C4. Construction raises \<open>ValueError\<close> (the specification's RangeError)
  exactly when some field is outside its bounds, and with all five fields within bounds
  it returns the identifier holding exactly those fields. In particular each of
  \<open>timestamp = MAX_TS + 1\<close>, \<open>datacenter = 32\<close>, \<open>instance = 32\<close>,
  \<open>seq = 4096\<close> and \<open>epoch = -1\<close> makes construction raise \<open>ValueError\<close>,
  whatever the other fields are. \<open>Snowflake_new\<close> is a function from the five fields
  to a value: it reads and writes nothing else.
\<close>

theorem construct_bounds:
  "((\<exists>f. Snowflake_new ts dc inst ep sq = Inl (ValueError f)) \<longleftrightarrow>
      \<not> (0 \<le> ts \<and> ts \<le> MAX_TS \<and> 0 \<le> dc \<and> dc \<le> 31 \<and> 0 \<le> inst \<and> inst \<le> 31
         \<and> 0 \<le> ep \<and> 0 \<le> sq \<and> sq \<le> 4095)) \<and>
   (0 \<le> ts \<and> ts \<le> MAX_TS \<and> 0 \<le> dc \<and> dc \<le> 31 \<and> 0 \<le> inst \<and> inst \<le> 31
         \<and> 0 \<le> ep \<and> 0 \<le> sq \<and> sq \<le> 4095 \<longrightarrow>
      Snowflake_new ts dc inst ep sq =
        Inr \<lparr>timestamp = ts, datacenter = dc, instance_id = inst, epoch = ep, seq = sq\<rparr>) \<and>
   (\<exists>f. Snowflake_new (MAX_TS + 1) dc inst ep sq = Inl (ValueError f)) \<and>
   (\<exists>f. Snowflake_new ts 32 inst ep sq = Inl (ValueError f)) \<and>
   (\<exists>f. Snowflake_new ts dc 32 ep sq = Inl (ValueError f)) \<and>
   (\<exists>f. Snowflake_new ts dc inst ep 4096 = Inl (ValueError f)) \<and>
   (\<exists>f. Snowflake_new ts dc inst (- 1) sq = Inl (ValueError f))"
  by (auto simp: Snowflake_new_def post_init_def MAX_DATACENTER_def MAX_INSTANCE_def
      MAX_SEQ_def MAX_TS_def)

theorem construct_bounds_witness:
  "Snowflake_new 123456789 1 2 0 3 =
     Inr \<lparr>timestamp = 123456789, datacenter = 1, instance_id = 2, epoch = 0, seq = 3\<rparr> \<and>
   (\<exists>f. Snowflake_new 123456789 1 32 0 3 = Inl (ValueError f))"
  using construct_bounds [of 123456789 1 2 0 3] by (simp add: MAX_TS_def)

section \<open>The generator\<close>

subsection \<open>The packed integer of the generator\<close>

lemma low_bits_clear: "take_bit m k = 0 \<Longrightarrow> n < m \<Longrightarrow> \<not> bit k n" for k :: int
proof
  assume z: "take_bit m k = 0" and n: "n < m" and b: "bit k n"
  from n b have "bit (take_bit m k) n"
    by (simp add: bit_simps)
  with z show False
    by simp
qed

lemma high_bits_clear: "drop_bit m k = 0 \<Longrightarrow> m \<le> n \<Longrightarrow> \<not> bit k n" for k :: int
proof
  assume z: "drop_bit m k = 0" and n: "m \<le> n" and b: "bit k n"
  from n b have "bit (drop_bit m k) (n - m)"
    by (simp add: bit_simps)
  with z show False
    by simp
qed

lemma packed_ts:
  assumes "take_bit 12 ifd = 0" and "drop_bit 22 ifd = 0" and "0 \<le> sq" and "sq \<le> 4095"
  shows "drop_bit 22 (push_bit 22 ts OR ifd OR sq) = (ts :: int)"
proof (rule bit_eqI)
  fix n :: nat
  have "\<not> bit ifd (n + 22)"
    using assms(2) by (rule high_bits_clear) simp
  moreover have "\<not> bit sq (n + 22)"
  proof -
    from assms(3,4) have "drop_bit 12 sq = 0"
      by (simp add: drop_bit_eq_div)
    then show ?thesis
      by (rule high_bits_clear) simp
  qed
  ultimately show "bit (drop_bit 22 (push_bit 22 ts OR ifd OR sq)) n = bit ts n"
    by (simp add: bit_simps add.commute)
qed

lemma packed_seq:
  assumes "take_bit 12 ifd = 0" and "0 \<le> sq" and "sq \<le> 4095"
  shows "(push_bit 22 ts OR ifd OR sq) AND 4095 = (sq :: int)"
proof -
  from assms(2,3) have sq: "take_bit 12 sq = sq"
    by (rule fits12)
  have "take_bit 12 (push_bit 22 ts OR ifd OR sq) = take_bit 12 sq"
  proof (rule bit_eqI)
    fix n :: nat
    have "n < 12 \<Longrightarrow> \<not> bit ifd n"
      using assms(1) by (rule low_bits_clear)
    then show "bit (take_bit 12 (push_bit 22 ts OR ifd OR sq)) n = bit (take_bit 12 sq) n"
      by (auto simp: bit_simps)
  qed
  with sq show ?thesis
    by (simp add: and4095)
qed

lemma inf_shape:
  assumes "0 \<le> dc" and "dc \<le> 31" and "0 \<le> inst" and "inst \<le> 31"
  shows "take_bit 12 (push_bit 17 dc OR push_bit 12 inst) = (0 :: int)"
    and "drop_bit 22 (push_bit 17 dc OR push_bit 12 inst) = 0"
proof -
  from assms have dc: "take_bit 5 dc = dc" and inst: "take_bit 5 inst = inst"
    by (simp_all add: fits5)
  show "take_bit 12 (push_bit 17 dc OR push_bit 12 inst) = (0 :: int)"
    by (rule bit_eqI) (auto simp: bit_simps)
  have "drop_bit 22 (push_bit 17 (take_bit 5 dc) OR push_bit 12 (take_bit 5 inst)) = 0"
    by (rule bit_eqI) (auto simp: bit_simps)
  then show "drop_bit 22 (push_bit 17 dc OR push_bit 12 inst) = 0"
    by (simp only: dc inst)
qed

subsection \<open>One call of the generator\<close>

lemma init_Inr:
  "SnowflakeGenerator_init now dc inst sq ep ts_arg = Inr g \<Longrightarrow>
     now - ep < MAX_TS \<and> 0 \<le> ep \<and> ep \<le> now \<and> 0 \<le> dc \<and> dc \<le> 31 \<and> 0 \<le> inst \<and> inst \<le> 31 \<and>
     0 \<le> sq \<and> sq \<le> 4095 \<and> gen_epoch g = ep \<and> gen_seq g = sq \<and>
     gen_inf g = push_bit 17 dc OR push_bit 12 inst \<and> gen_ts g \<le> now - ep"
  by (auto simp: SnowflakeGenerator_init_def Let_def MAX_DATACENTER_def MAX_INSTANCE_def
      MAX_SEQ_def split: if_splits option.splits)

lemma init_inv:
  assumes "SnowflakeGenerator_init now dc inst sq ep ts_arg = Inr g"
  shows "gen_inv g"
proof -
  note f = init_Inr [OF assms]
  from f have r: "0 \<le> dc" "dc \<le> 31" "0 \<le> inst" "inst \<le> 31"
    by simp_all
  from f have "gen_inf g = push_bit 17 dc OR push_bit 12 inst"
    by simp
  then have "take_bit 12 (gen_inf g) = 0" and "drop_bit 22 (gen_inf g) = 0"
    by (simp_all only: inf_shape [OF r])
  with f show ?thesis
    by (simp add: gen_inv_def MAX_SEQ_def)
qed

lemma next_overflow:
  "MAX_TS \<le> now - gen_epoch g \<Longrightarrow> gen_next now g = (Inl OverflowError, g)"
  by (simp add: gen_next_def)

lemma next_same:
  "now - gen_epoch g = gen_ts g \<Longrightarrow> gen_ts g < MAX_TS \<Longrightarrow> gen_seq g \<noteq> MAX_SEQ \<Longrightarrow>
     gen_next now g =
       (Inr (Some (push_bit 22 (gen_ts g) OR gen_inf g OR (gen_seq g + 1))),
        g\<lparr>gen_seq := gen_seq g + 1\<rparr>)"
  by (simp add: gen_next_def mint_def)

lemma next_exhausted:
  "now - gen_epoch g = gen_ts g \<Longrightarrow> gen_ts g < MAX_TS \<Longrightarrow> gen_seq g = MAX_SEQ \<Longrightarrow>
     gen_next now g = (Inr None, g)"
  by (simp add: gen_next_def)

lemma next_backward:
  "now - gen_epoch g < gen_ts g \<Longrightarrow> gen_ts g < MAX_TS \<Longrightarrow> gen_next now g = (Inr None, g)"
  by (simp add: gen_next_def)

lemma next_fresh:
  "gen_ts g < now - gen_epoch g \<Longrightarrow> now - gen_epoch g < MAX_TS \<Longrightarrow>
     gen_next now g =
       (Inr (Some (push_bit 22 (now - gen_epoch g) OR gen_inf g OR 0)),
        g\<lparr>gen_seq := 0, gen_ts := now - gen_epoch g\<rparr>)"
  by (simp add: gen_next_def mint_def Let_def)

lemma next_frame: "gen_epoch (snd (gen_next now g)) = gen_epoch g \<and> gen_inf (snd (gen_next now g)) = gen_inf g"
  by (simp add: gen_next_def mint_def Let_def)

lemma next_ts_mono: "gen_ts g \<le> gen_ts (snd (gen_next now g))"
  by (simp add: gen_next_def mint_def Let_def)

lemma next_inv: "gen_inv g \<Longrightarrow> gen_inv (snd (gen_next now g))"
  by (auto simp: gen_inv_def gen_next_def mint_def Let_def MAX_SEQ_def)

subsection \<open>Many calls\<close>

lemma run_append:
  "run (xs @ ys) g = (fst (run xs g) @ fst (run ys (snd (run xs g))), snd (run ys (snd (run xs g))))"
  by (induction xs arbitrary: g) (simp_all add: case_prod_beta)

lemma run_length: "length (fst (run clock g)) = length clock"
  by (induction clock arbitrary: g) (simp_all add: case_prod_beta)

lemma run_inv: "gen_inv g \<Longrightarrow> gen_inv (snd (run clock g))"
proof (induction clock arbitrary: g)
  case Nil
  then show ?case by simp
next
  case (Cons now clock)
  from Cons.prems have "gen_inv (snd (gen_next now g))"
    by (rule next_inv)
  then have "gen_inv (snd (run clock (snd (gen_next now g))))"
    by (rule Cons.IH)
  then show ?case
    by (simp add: case_prod_beta)
qed

lemma run_ts_mono: "gen_ts g \<le> gen_ts (snd (run clock g))"
proof (induction clock arbitrary: g)
  case Nil
  show ?case by simp
next
  case (Cons now clock)
  have "gen_ts g \<le> gen_ts (snd (gen_next now g))"
    by (rule next_ts_mono)
  also have "\<dots> \<le> gen_ts (snd (run clock (snd (gen_next now g))))"
    by (rule Cons.IH)
  finally show ?case
    by (simp add: case_prod_beta)
qed

lemma run_same:
  "now - gen_epoch g = gen_ts g \<Longrightarrow> gen_ts g < MAX_TS \<Longrightarrow> gen_seq g + int n \<le> MAX_SEQ \<Longrightarrow>
     run (replicate n now) g =
       (map (\<lambda>k. Inr (Some (push_bit 22 (gen_ts g) OR gen_inf g OR (gen_seq g + int k))))
          [1..<Suc n],
        g\<lparr>gen_seq := gen_seq g + int n\<rparr>)"
proof (induction n arbitrary: g)
  case 0
  then show ?case by simp
next
  case (Suc n)
  let ?g = "g\<lparr>gen_seq := gen_seq g + 1\<rparr>"
  from Suc.prems have step: "gen_next now g =
      (Inr (Some (push_bit 22 (gen_ts g) OR gen_inf g OR (gen_seq g + 1))), ?g)"
    by (intro next_same) simp_all
  from Suc.prems have rest: "run (replicate n now) ?g =
       (map (\<lambda>k. Inr (Some (push_bit 22 (gen_ts ?g) OR gen_inf ?g OR (gen_seq ?g + int k))))
          [1..<Suc n],
        ?g\<lparr>gen_seq := gen_seq ?g + int n\<rparr>)"
    by (intro Suc.IH) simp_all
  have upt: "[1..<Suc (Suc n)] = 1 # map Suc [1..<Suc n]"
    by (simp add: upt_conv_Cons map_Suc_upt del: upt_Suc)
  from rest have rest': "run (replicate n now) ?g =
       (map (\<lambda>k. Inr (Some (push_bit 22 (gen_ts g) OR gen_inf g OR (gen_seq g + int (Suc k)))))
          [1..<Suc n],
        g\<lparr>gen_seq := gen_seq g + int (Suc n)\<rparr>)"
    by (simp add: algebra_simps)
  show ?case
    unfolding upt by (simp add: step rest' comp_def del: upt_Suc)
qed

section \<open>The generator: claims\<close>

text \<open>
  Claim C5. Take a generator in a state the invariant \<open>gen_inv\<close> holds of, a clock
  that reads the millisecond of \<open>last_timestamp\<close> on \<open>n\<close> consecutive calls, and a
  sequence that is below 4095 at each of them (\<open>sequence + n \<le> 4095\<close>). Then the
  \<open>k\<close>-th call returns the packed integer of sequence \<open>sequence + k\<close>, after the
  \<open>n\<close> calls the stored sequence is \<open>sequence + n\<close> and nothing else has changed,
  and in each returned integer the sequence portion (\<open>& 4095\<close>) is \<open>sequence + k\<close>
  and the timestamp portion (\<open>>> 22\<close>) is the unchanged \<open>last_timestamp\<close>.
\<close>

theorem same_millisecond:
  assumes "gen_inv g" and "now - gen_epoch g = gen_ts g" and "gen_seq g + int n \<le> MAX_SEQ"
  shows "run (replicate n now) g =
       (map (\<lambda>k. Inr (Some (push_bit 22 (gen_ts g) OR gen_inf g OR (gen_seq g + int k))))
          [1..<Suc n],
        g\<lparr>gen_seq := gen_seq g + int n\<rparr>) \<and>
     (\<forall>k \<in> {1..n}.
       drop_bit 22 (push_bit 22 (gen_ts g) OR gen_inf g OR (gen_seq g + int k)) = gen_ts g \<and>
       (push_bit 22 (gen_ts g) OR gen_inf g OR (gen_seq g + int k)) AND MAX_SEQ
         = gen_seq g + int k)"
proof (rule conjI)
  from assms(1) have ts: "gen_ts g < MAX_TS"
    by (simp add: gen_inv_def)
  from assms(2) ts assms(3) show "run (replicate n now) g =
       (map (\<lambda>k. Inr (Some (push_bit 22 (gen_ts g) OR gen_inf g OR (gen_seq g + int k))))
          [1..<Suc n],
        g\<lparr>gen_seq := gen_seq g + int n\<rparr>)"
    by (rule run_same)
  from assms(1) have lo: "take_bit 12 (gen_inf g) = 0"
    and hi: "drop_bit 22 (gen_inf g) = 0" and s0: "0 \<le> gen_seq g"
    by (simp_all add: gen_inv_def)
  show "\<forall>k \<in> {1..n}.
       drop_bit 22 (push_bit 22 (gen_ts g) OR gen_inf g OR (gen_seq g + int k)) = gen_ts g \<and>
       (push_bit 22 (gen_ts g) OR gen_inf g OR (gen_seq g + int k)) AND MAX_SEQ
         = gen_seq g + int k"
  proof
    fix k
    assume "k \<in> {1..n}"
    with assms(3) s0 have a: "0 \<le> gen_seq g + int k" and b: "gen_seq g + int k \<le> 4095"
      by (simp_all add: MAX_SEQ_def)
    from lo hi a b
    have "drop_bit 22 (push_bit 22 (gen_ts g) OR gen_inf g OR (gen_seq g + int k)) = gen_ts g"
      by (rule packed_ts)
    moreover from lo a b
    have "(push_bit 22 (gen_ts g) OR gen_inf g OR (gen_seq g + int k)) AND 4095
        = gen_seq g + int k"
      by (rule packed_seq)
    ultimately show "drop_bit 22 (push_bit 22 (gen_ts g) OR gen_inf g OR (gen_seq g + int k))
        = gen_ts g \<and>
       (push_bit 22 (gen_ts g) OR gen_inf g OR (gen_seq g + int k)) AND MAX_SEQ
         = gen_seq g + int k"
      by (simp add: MAX_SEQ_def)
  qed
qed


text \<open>
  Three calls in millisecond 1000 on the generator of datacenter 1, instance 2.
\<close>

theorem same_millisecond_witness:
  "gen_inv \<lparr>gen_epoch = 0, gen_ts = 1000, gen_inf = 139264, gen_seq = 0\<rparr> \<and>
   run [1000, 1000, 1000] \<lparr>gen_epoch = 0, gen_ts = 1000, gen_inf = 139264, gen_seq = 0\<rparr> =
     ([Inr (Some 4194443265), Inr (Some 4194443266), Inr (Some 4194443267)],
      \<lparr>gen_epoch = 0, gen_ts = 1000, gen_inf = 139264, gen_seq = 3\<rparr>)"
proof -
  let ?g = "\<lparr>gen_epoch = 0, gen_ts = 1000, gen_inf = 139264, gen_seq = 0\<rparr>"
  have i: "gen_inv ?g"
    by (simp add: gen_inv_def MAX_SEQ_def MAX_TS_def take_bit_eq_mod drop_bit_eq_div)
  have c: "1000 - gen_epoch ?g = gen_ts ?g"
    by simp
  have s: "gen_seq ?g + int 3 \<le> MAX_SEQ"
    by (simp add: MAX_SEQ_def)
  have u: "[1..<Suc 3] = [1, 2, 3]"
    by (simp add: upt_conv_Cons)
  have r: "replicate 3 (1000::int) = [1000, 1000, 1000]"
    by (simp add: numeral_3_eq_3)
  from same_millisecond [OF i c s] i show ?thesis
    unfolding u r by (simp add: push_bit_eq_mult)
qed

subsection \<open>Exhausting a millisecond\<close>

lemma replicate_4097: "replicate 4097 x = x # replicate 4095 x @ [x]"
proof -
  have "(4097::nat) = Suc (4095 + 1)"
    by simp
  then have "replicate 4097 x = replicate (Suc (4095 + 1)) x"
    by (rule arg_cong)
  also have "\<dots> = x # replicate 4095 x @ [x]"
    by (simp only: replicate_Suc replicate_add replicate_0 One_nat_def)
  finally show ?thesis .
qed

text \<open>
  Claim C6. A call in the millisecond of \<open>last_timestamp\<close> with the sequence at
  4095 returns \<open>None\<close> and leaves the generator as it was. Starting from a fresh
  millisecond (the clock is past \<open>last_timestamp\<close> and below \<open>MAX_TS\<close>), 4097
  calls in that millisecond return the 4096 identifiers of sequences 0 to 4095 and then,
  at the 4097th call, \<open>None\<close>.
\<close>

theorem sequence_exhaustion:
  "(now - gen_epoch g = gen_ts g \<and> gen_ts g < MAX_TS \<and> gen_seq g = MAX_SEQ \<longrightarrow>
      gen_next now g = (Inr None, g)) \<and>
   (gen_ts g < now - gen_epoch g \<and> now - gen_epoch g < MAX_TS \<longrightarrow>
      run (replicate 4097 now) g =
        (Inr (Some (push_bit 22 (now - gen_epoch g) OR gen_inf g OR 0)) #
         map (\<lambda>k. Inr (Some (push_bit 22 (now - gen_epoch g) OR gen_inf g OR int k)))
           [1..<4096] @ [Inr None],
         g\<lparr>gen_seq := MAX_SEQ, gen_ts := now - gen_epoch g\<rparr>) \<and>
      fst (run (replicate 4097 now) g) ! 4096 = Inr None)"
proof (intro conjI impI)
  assume "now - gen_epoch g = gen_ts g \<and> gen_ts g < MAX_TS \<and> gen_seq g = MAX_SEQ"
  then show "gen_next now g = (Inr None, g)"
    by (simp add: next_exhausted)
next
  assume a: "gen_ts g < now - gen_epoch g \<and> now - gen_epoch g < MAX_TS"
  let ?c = "now - gen_epoch g"
  let ?g1 = "g\<lparr>gen_seq := 0, gen_ts := ?c\<rparr>"
  let ?g2 = "?g1\<lparr>gen_seq := gen_seq ?g1 + int 4095\<rparr>"
  from a have first: "gen_next now g = (Inr (Some (push_bit 22 ?c OR gen_inf g OR 0)), ?g1)"
    by (simp add: next_fresh)
  have middle: "run (replicate 4095 now) ?g1 =
       (map (\<lambda>k. Inr (Some (push_bit 22 (gen_ts ?g1) OR gen_inf ?g1 OR (gen_seq ?g1 + int k))))
          [1..<Suc 4095], ?g2)"
    using a by (intro run_same) (simp_all add: MAX_SEQ_def)
  have last: "gen_next now ?g2 = (Inr None, ?g2)"
    using a by (intro next_exhausted) (simp_all add: MAX_SEQ_def)
  have "run (now # replicate 4095 now @ [now]) g =
        (Inr (Some (push_bit 22 ?c OR gen_inf g OR 0)) #
         map (\<lambda>k. Inr (Some (push_bit 22 (gen_ts ?g1) OR gen_inf ?g1 OR (gen_seq ?g1 + int k))))
           [1..<Suc 4095] @ [Inr None], ?g2)"
    by (simp only: run.simps first run_append middle last prod.case fst_conv snd_conv
        append.simps)
  then show all: "run (replicate 4097 now) g =
        (Inr (Some (push_bit 22 ?c OR gen_inf g OR 0)) #
         map (\<lambda>k. Inr (Some (push_bit 22 ?c OR gen_inf g OR int k)))
           [1..<4096] @ [Inr None],
         g\<lparr>gen_seq := MAX_SEQ, gen_ts := ?c\<rparr>)"
    by (simp add: replicate_4097 MAX_SEQ_def del: upt_Suc)
  show "fst (run (replicate 4097 now) g) ! 4096 = Inr None"
    unfolding all by (simp add: nth_append del: upt_Suc)
qed

text \<open>
  Both parts at millisecond 1000: a generator already at sequence 4095, and one whose
  last millisecond was 999.
\<close>

theorem sequence_exhaustion_witness:
  "gen_next 1000 \<lparr>gen_epoch = 0, gen_ts = 1000, gen_inf = 139264, gen_seq = 4095\<rparr> =
     (Inr None, \<lparr>gen_epoch = 0, gen_ts = 1000, gen_inf = 139264, gen_seq = 4095\<rparr>) \<and>
   fst (run (replicate 4097 1000)
     \<lparr>gen_epoch = 0, gen_ts = 999, gen_inf = 139264, gen_seq = 7\<rparr>) ! 4096 = Inr None"
proof -
  let ?a = "\<lparr>gen_epoch = 0, gen_ts = 1000, gen_inf = 139264, gen_seq = 4095\<rparr>"
  let ?b = "\<lparr>gen_epoch = 0, gen_ts = 999, gen_inf = 139264, gen_seq = 7\<rparr>"
  have a: "1000 - gen_epoch ?a = gen_ts ?a \<and> gen_ts ?a < MAX_TS \<and> gen_seq ?a = MAX_SEQ"
    by (simp add: MAX_TS_def MAX_SEQ_def)
  have b: "gen_ts ?b < 1000 - gen_epoch ?b \<and> 1000 - gen_epoch ?b < MAX_TS"
    by (simp add: MAX_TS_def)
  from sequence_exhaustion [of 1000 ?a] a have "gen_next 1000 ?a = (Inr None, ?a)"
    by blast
  moreover from sequence_exhaustion [of 1000 ?b] b
  have "fst (run (replicate 4097 1000) ?b) ! 4096 = Inr None"
    by blast
  ultimately show ?thesis
    by (rule conjI)
qed

text \<open>
  Claim C7. In a generator state with \<open>last_timestamp\<close> below \<open>MAX_TS\<close> (every
  state the constructor returns or a call leaves behind, by \<open>gen_inv\<close>), a call that
  reads a millisecond before \<open>last_timestamp\<close> returns \<open>None\<close> and leaves the whole
  state unchanged. The next call, at any clock reading \<open>now'\<close>, therefore behaves as
  if the backward reading had not happened: at a later millisecond it mints the
  identifier of sequence 0, at the original millisecond the one of the next sequence.
\<close>

theorem backward_clock:
  assumes "gen_ts g < MAX_TS" and "now - gen_epoch g < gen_ts g"
  shows "gen_next now g = (Inr None, g) \<and>
     gen_next now' (snd (gen_next now g)) = gen_next now' g \<and>
     (gen_ts g < now' - gen_epoch g \<and> now' - gen_epoch g < MAX_TS \<longrightarrow>
        gen_next now' (snd (gen_next now g)) =
          (Inr (Some (push_bit 22 (now' - gen_epoch g) OR gen_inf g OR 0)),
           g\<lparr>gen_seq := 0, gen_ts := now' - gen_epoch g\<rparr>)) \<and>
     (now' - gen_epoch g = gen_ts g \<and> gen_seq g \<noteq> MAX_SEQ \<longrightarrow>
        gen_next now' (snd (gen_next now g)) =
          (Inr (Some (push_bit 22 (gen_ts g) OR gen_inf g OR (gen_seq g + 1))),
           g\<lparr>gen_seq := gen_seq g + 1\<rparr>))"
proof -
  note ts = assms(1)
  with assms(2) have stall: "gen_next now g = (Inr None, g)"
    by (rule next_backward)
  then have same: "snd (gen_next now g) = g"
    by simp
  show ?thesis
    unfolding same using stall ts by (simp add: next_fresh next_same)
qed

text \<open>
  The clock steps back from 1000 to 990 and returns to 1000.
\<close>

theorem backward_clock_witness:
  "gen_ts \<lparr>gen_epoch = 0, gen_ts = 1000, gen_inf = 139264, gen_seq = 5\<rparr> < MAX_TS \<and>
   gen_next 990 \<lparr>gen_epoch = 0, gen_ts = 1000, gen_inf = 139264, gen_seq = 5\<rparr> =
     (Inr None, \<lparr>gen_epoch = 0, gen_ts = 1000, gen_inf = 139264, gen_seq = 5\<rparr>) \<and>
   gen_next 1000 (snd (gen_next 990
       \<lparr>gen_epoch = 0, gen_ts = 1000, gen_inf = 139264, gen_seq = 5\<rparr>)) =
     (Inr (Some 4194443270), \<lparr>gen_epoch = 0, gen_ts = 1000, gen_inf = 139264, gen_seq = 6\<rparr>)"
proof -
  let ?g = "\<lparr>gen_epoch = 0, gen_ts = 1000, gen_inf = 139264, gen_seq = 5\<rparr>"
  have i: "gen_ts ?g < MAX_TS"
    by (simp add: MAX_TS_def)
  have b: "990 - gen_epoch ?g < gen_ts ?g"
    by simp
  have c: "1000 - gen_epoch ?g = gen_ts ?g \<and> gen_seq ?g \<noteq> MAX_SEQ"
    by (simp add: MAX_SEQ_def)
  from backward_clock [OF i b, of 1000] have "gen_next 990 ?g = (Inr None, ?g)"
    by blast
  moreover from backward_clock [OF i b, of 1000] c
  have "gen_next 1000 (snd (gen_next 990 ?g)) =
      (Inr (Some (push_bit 22 (gen_ts ?g) OR gen_inf ?g OR (gen_seq ?g + 1))),
       ?g\<lparr>gen_seq := gen_seq ?g + 1\<rparr>)"
    by blast
  then have "gen_next 1000 (snd (gen_next 990 ?g)) =
      (Inr (Some 4194443270), \<lparr>gen_epoch = 0, gen_ts = 1000, gen_inf = 139264, gen_seq = 6\<rparr>)"
    by (simp add: push_bit_eq_mult)
  ultimately show ?thesis
    using i by blast
qed

text \<open>
  Claim C8. Every generator the constructor returns satisfies \<open>gen_inv\<close>, and from a
  state that satisfies it every sequence of calls, with any clock readings, ends in a
  state that satisfies it, with \<open>last_timestamp\<close> not smaller than before and the
  sequence within \<open>0..4095\<close>. For one call: \<open>last_timestamp\<close> never decreases; when
  it increases, the sequence is 0 afterwards, \<open>last_timestamp\<close> is the millisecond
  read and the call returned the identifier of sequence 0; when it stays, the sequence
  is unchanged or one more.
\<close>

theorem generator_invariant:
  "(SnowflakeGenerator_init now0 dc inst sq ep ts_arg = Inr g \<longrightarrow> gen_inv g) \<and>
   (gen_inv g \<longrightarrow>
      gen_inv (snd (run clock g)) \<and>
      gen_ts g \<le> gen_ts (snd (run clock g)) \<and>
      0 \<le> gen_seq (snd (run clock g)) \<and> gen_seq (snd (run clock g)) \<le> 4095) \<and>
   gen_ts g \<le> gen_ts (snd (gen_next now g)) \<and>
   (gen_ts g < gen_ts (snd (gen_next now g)) \<longrightarrow>
      gen_seq (snd (gen_next now g)) = 0 \<and>
      gen_ts (snd (gen_next now g)) = now - gen_epoch g \<and>
      fst (gen_next now g) =
        Inr (Some (push_bit 22 (now - gen_epoch g) OR gen_inf g OR 0))) \<and>
   (gen_ts (snd (gen_next now g)) = gen_ts g \<longrightarrow>
      gen_seq (snd (gen_next now g)) = gen_seq g \<or>
      gen_seq (snd (gen_next now g)) = gen_seq g + 1)"
proof (intro conjI impI)
  assume "SnowflakeGenerator_init now0 dc inst sq ep ts_arg = Inr g"
  then show "gen_inv g"
    by (rule init_inv)
next
  assume "gen_inv g"
  then show i: "gen_inv (snd (run clock g))"
    by (rule run_inv)
  then show "0 \<le> gen_seq (snd (run clock g))" and "gen_seq (snd (run clock g)) \<le> 4095"
    by (simp_all add: gen_inv_def MAX_SEQ_def)
  show "gen_ts g \<le> gen_ts (snd (run clock g))"
    by (rule run_ts_mono)
next
  show "gen_ts g \<le> gen_ts (snd (gen_next now g))"
    by (rule next_ts_mono)
next
  assume a: "gen_ts g < gen_ts (snd (gen_next now g))"
  then show "gen_seq (snd (gen_next now g)) = 0"
    by (simp add: gen_next_def mint_def Let_def split: if_splits)
  from a show "gen_ts (snd (gen_next now g)) = now - gen_epoch g"
    by (simp add: gen_next_def mint_def Let_def split: if_splits)
  from a show "fst (gen_next now g) =
        Inr (Some (push_bit 22 (now - gen_epoch g) OR gen_inf g OR 0))"
    by (simp add: gen_next_def mint_def Let_def split: if_splits)
next
  assume "gen_ts (snd (gen_next now g)) = gen_ts g"
  then show "gen_seq (snd (gen_next now g)) = gen_seq g \<or>
      gen_seq (snd (gen_next now g)) = gen_seq g + 1"
    by (simp add: gen_next_def mint_def Let_def split: if_splits)
qed

text \<open>
  The generator built at millisecond 1000, called at 1000, 1001 and 999.
\<close>

theorem generator_invariant_witness:
  "SnowflakeGenerator_init 1000 1 2 0 0 None =
     Inr \<lparr>gen_epoch = 0, gen_ts = 1000, gen_inf = 139264, gen_seq = 0\<rparr> \<and>
   gen_inv \<lparr>gen_epoch = 0, gen_ts = 1000, gen_inf = 139264, gen_seq = 0\<rparr> \<and>
   snd (run [1000, 1001, 999] \<lparr>gen_epoch = 0, gen_ts = 1000, gen_inf = 139264, gen_seq = 0\<rparr>)
     = \<lparr>gen_epoch = 0, gen_ts = 1001, gen_inf = 139264, gen_seq = 0\<rparr> \<and>
   gen_inv \<lparr>gen_epoch = 0, gen_ts = 1001, gen_inf = 139264, gen_seq = 0\<rparr> \<and>
   snd (gen_next 1001 \<lparr>gen_epoch = 0, gen_ts = 1000, gen_inf = 139264, gen_seq = 0\<rparr>)
     = \<lparr>gen_epoch = 0, gen_ts = 1001, gen_inf = 139264, gen_seq = 0\<rparr>"
proof -
  let ?g = "\<lparr>gen_epoch = 0, gen_ts = 1000, gen_inf = 139264, gen_seq = 0\<rparr>"
  have n: "SnowflakeGenerator_init 1000 1 2 0 0 None = Inr ?g"
    by (simp add: SnowflakeGenerator_init_def MAX_TS_def MAX_DATACENTER_def MAX_INSTANCE_def
        MAX_SEQ_def push_bit_eq_mult)
  have r: "snd (run [1000, 1001, 999] ?g)
      = \<lparr>gen_epoch = 0, gen_ts = 1001, gen_inf = 139264, gen_seq = 0\<rparr>"
    by (simp add: gen_next_def mint_def MAX_TS_def MAX_SEQ_def)
  have s: "snd (gen_next 1001 ?g)
      = \<lparr>gen_epoch = 0, gen_ts = 1001, gen_inf = 139264, gen_seq = 0\<rparr>"
    by (simp add: gen_next_def mint_def MAX_TS_def MAX_SEQ_def)
  from generator_invariant [of 1000 1 2 0 0 None ?g "[1000, 1001, 999]" 1001] n r s
  show ?thesis
    by simp
qed

text \<open>
  Claim C9. The constructor raises \<open>OverflowError\<close> when
  \<open>current - epoch \<ge> MAX_TS\<close>, and \<open>__next__\<close> raises \<open>OverflowError\<close>, leaving the
  state as it was, whenever the clock reading minus the epoch is at least \<open>MAX_TS\<close>.
  Neither raises \<open>OverflowError\<close> otherwise.
\<close>

theorem epoch_exhaustion:
  "(MAX_TS \<le> now - ep \<longrightarrow>
      SnowflakeGenerator_init now dc inst sq ep ts_arg = Inl OverflowError) \<and>
   (MAX_TS \<le> now - gen_epoch g \<longrightarrow> gen_next now g = (Inl OverflowError, g)) \<and>
   (fst (gen_next now g) = Inl OverflowError \<longleftrightarrow> MAX_TS \<le> now - gen_epoch g) \<and>
   (SnowflakeGenerator_init now dc inst sq ep ts_arg = Inl OverflowError
      \<longleftrightarrow> MAX_TS \<le> now - ep)"
  by (simp add: SnowflakeGenerator_init_def gen_next_def mint_def Let_def)

text \<open>
  At the first exhausted millisecond, for epoch 0 and for epoch 10.
\<close>

theorem epoch_exhaustion_witness:
  "SnowflakeGenerator_init 2199023255551 1 2 0 0 None = Inl OverflowError \<and>
   gen_next 2199023255561 \<lparr>gen_epoch = 10, gen_ts = 1000, gen_inf = 139264, gen_seq = 0\<rparr> =
     (Inl OverflowError, \<lparr>gen_epoch = 10, gen_ts = 1000, gen_inf = 139264, gen_seq = 0\<rparr>)"
  using epoch_exhaustion [of 2199023255551 0 1 2 0 None]
    epoch_exhaustion [of 2199023255561 0 1 2 0 None
      "\<lparr>gen_epoch = 10, gen_ts = 1000, gen_inf = 139264, gen_seq = 0\<rparr>"]
  by (simp add: MAX_TS_def)

text \<open>
  Claim C10. The constructor called with \<open>timestamp = 0\<close> does exactly what it
  does with no timestamp: when it succeeds, \<open>last_timestamp\<close> is \<open>current - epoch\<close>;
  and with a clock that reads a non-negative number of milliseconds since the Unix
  epoch it never fails the timestamp range check.
\<close>

theorem timestamp_zero_default:
  "SnowflakeGenerator_init now dc inst sq ep (Some 0) =
     SnowflakeGenerator_init now dc inst sq ep None \<and>
   (SnowflakeGenerator_init now dc inst sq ep (Some 0) = Inr g \<longrightarrow> gen_ts g = now - ep) \<and>
   (0 \<le> now \<longrightarrow>
      SnowflakeGenerator_init now dc inst sq ep (Some 0) \<noteq> Inl (ValueError Timestamp))"
  by (auto simp: SnowflakeGenerator_init_def Let_def split: if_splits)

text \<open>
  The constructor at millisecond 1000 with epoch 10.
\<close>

theorem timestamp_zero_default_witness:
  "(0::int) \<le> 1000 \<and>
   SnowflakeGenerator_init 1000 1 2 0 10 (Some 0) =
     Inr \<lparr>gen_epoch = 10, gen_ts = 990, gen_inf = 139264, gen_seq = 0\<rparr> \<and>
   SnowflakeGenerator_init 1000 1 2 0 10 None =
     Inr \<lparr>gen_epoch = 10, gen_ts = 990, gen_inf = 139264, gen_seq = 0\<rparr>"
proof -
  have n: "SnowflakeGenerator_init 1000 1 2 0 10 None =
      Inr \<lparr>gen_epoch = 10, gen_ts = 990, gen_inf = 139264, gen_seq = 0\<rparr>"
    by (simp add: SnowflakeGenerator_init_def MAX_TS_def MAX_DATACENTER_def MAX_INSTANCE_def
        MAX_SEQ_def push_bit_eq_mult)
  from timestamp_zero_default [of 1000 1 2 0 10
      "\<lparr>gen_epoch = 10, gen_ts = 990, gen_inf = 139264, gen_seq = 0\<rparr>"] n
  show ?thesis
    by simp
qed

end
